theory Spec2Isabelle
  imports Complex_Main "HOL-Library.Word"
begin

section \<open>JavaScript strings\<close>

text \<open>
  A JavaScript string is a sequence of UTF-16 code units. \<open>text.length\<close>,
  \<open>text.split('')\<close>, \<open>charAt\<close>, \<open>substr\<close> and the regular expressions of the
  source (none carries the \<open>u\<close> flag) all work on code units, so the model keeps them.
  \<open>js\<close> writes an ASCII literal as such a string.
\<close>

type_synonym jschar = "16 word"
type_synonym jsstring = "jschar list"

definition js :: "string \<Rightarrow> jsstring" where
  "js cs = map (\<lambda>c. of_nat (of_char c)) cs"

text \<open>
  The class \<open>\s\<close> of a regular expression and the characters removed by \<open>trim()\<close> are the
  same set: the WhiteSpace and LineTerminator code points of ECMAScript.
\<close>

definition is_space :: "jschar \<Rightarrow> bool" where
  "is_space c \<longleftrightarrow>
     c = 0x09 \<or> c = 0x0A \<or> c = 0x0B \<or> c = 0x0C \<or> c = 0x0D \<or> c = 0x20 \<or> c = 0xA0
     \<or> c = 0x1680 \<or> (0x2000 \<le> c \<and> c \<le> 0x200A) \<or> c = 0x2028 \<or> c = 0x2029
     \<or> c = 0x202F \<or> c = 0x205F \<or> c = 0x3000 \<or> c = 0xFEFF"

text \<open>The class \<open>\w\<close> without the \<open>u\<close> flag: \<open>[A-Za-z0-9_]\<close>.\<close>

definition is_word :: "jschar \<Rightarrow> bool" where
  "is_word c \<longleftrightarrow>
     (0x41 \<le> c \<and> c \<le> 0x5A) \<or> (0x61 \<le> c \<and> c \<le> 0x7A) \<or> (0x30 \<le> c \<and> c \<le> 0x39)
     \<or> c = 0x5F"

text \<open>\<open>text.trim()\<close>\<close>

definition trim :: "jsstring \<Rightarrow> jsstring" where
  "trim s = rev (dropWhile is_space (rev (dropWhile is_space s)))"

text \<open>\<open>!text.trim()\<close>, and \<open>text.trim().length === 0\<close>: the empty string is the falsy one.\<close>

definition blank :: "jsstring \<Rightarrow> bool" where
  "blank s \<longleftrightarrow> trim s = []"

section \<open>The converter's state and \<open>handleConversion\<close>\<close>

text \<open>The keys of \<open>textConversions\<close>, \<open>numberConversions\<close> and \<open>specialConversions\<close>.\<close>

datatype conversion_id =
    SentenceCase | LowerCase | UpperCase | TitleCase | CamelCase | PascalCase | SnakeCase
  | KebabCase | AlternatingCase | InverseCase | ReverseText | CapitalizedCase
  | CommaToPeriod | PeriodToComma | AddThousandSeparators | RemoveSeparators
  | RemoveSpaces | RemoveLineBreaks | RemoveExtraSpaces | TrimWhitespace

text \<open>
  A history entry. \<open>entry_id\<close> is the reading of \<open>Date.now()\<close> and \<open>entry_timestamp\<close> the
  text of \<open>new Date().toLocaleTimeString()\<close>; both come from the clock, so the model takes
  them as arguments of the handler.
\<close>

record history_entry =
  entry_id :: nat
  entry_input :: jsstring
  entry_output :: jsstring
  entry_type :: conversion_id
  entry_timestamp :: jsstring

text \<open>The three pieces of component state the handler reads or writes.\<close>

record app_state =
  inputText :: jsstring
  outputText :: jsstring
  conversionHistory :: "history_entry list"

definition initial_state :: app_state where
  "initial_state = \<lparr>inputText = [], outputText = [], conversionHistory = []\<rparr>"

text \<open>
  \<^verbatim>\<open>
  if (!inputText.trim()) return
  const result = conversionFunction(inputText)
  setOutputText(result)
  const historyEntry = { id: Date.now(), input: inputText, output: result,
                         type: conversionType, timestamp: ... }
  setConversionHistory(prev => [historyEntry, ...prev.slice(0, 9)])
  \<close>
\<close>

definition historyEntry ::
  "conversion_id \<Rightarrow> (jsstring \<Rightarrow> jsstring) \<Rightarrow> nat \<Rightarrow> jsstring \<Rightarrow> app_state \<Rightarrow> history_entry" where
  "historyEntry conversionType conversionFunction now clock st =
     \<lparr>entry_id = now, entry_input = inputText st,
      entry_output = conversionFunction (inputText st),
      entry_type = conversionType, entry_timestamp = clock\<rparr>"

definition handleConversion ::
  "conversion_id \<Rightarrow> (jsstring \<Rightarrow> jsstring) \<Rightarrow> nat \<Rightarrow> jsstring \<Rightarrow> app_state \<Rightarrow> app_state" where
  "handleConversion conversionType conversionFunction now clock st =
     (if blank (inputText st) then st
      else st\<lparr>outputText := conversionFunction (inputText st),
              conversionHistory :=
                historyEntry conversionType conversionFunction now clock st
                  # take 9 (conversionHistory st)\<rparr>)"

text \<open>
  The other writers of this state: the textarea and the file loader (\<open>setInputText\<close>),
  and \<open>clearAll\<close>. Nothing else calls \<open>setOutputText\<close> or \<open>setConversionHistory\<close>.
\<close>

definition clearAll :: "app_state \<Rightarrow> app_state" where
  "clearAll st = st\<lparr>inputText := [], outputText := []\<rparr>"

datatype event =
    SetInputText jsstring
  | Conversion conversion_id "jsstring \<Rightarrow> jsstring" nat jsstring
  | ClearAll

fun step :: "app_state \<Rightarrow> event \<Rightarrow> app_state" where
  "step st (SetInputText t) = st\<lparr>inputText := t\<rparr>"
| "step st (Conversion ty f now clock) = handleConversion ty f now clock st"
| "step st ClearAll = clearAll st"

fun run :: "app_state \<Rightarrow> event list \<Rightarrow> app_state" where
  "run st [] = st"
| "run st (e # es) = run (step st e) es"

text \<open>
  The entries created along a run, oldest first: one for each conversion invoked while
  the input has a non-whitespace character.
\<close>

fun created :: "app_state \<Rightarrow> event list \<Rightarrow> history_entry list" where
  "created st [] = []"
| "created st (Conversion ty f now clock # es) =
     (if blank (inputText st) then [] else [historyEntry ty f now clock st])
       @ created (step st (Conversion ty f now clock)) es"
| "created st (e # es) = created (step st e) es"

section \<open>Case mapping and code points\<close>

text \<open>
  \<open>toLowerCase()\<close> and \<open>toUpperCase()\<close> are built-ins of the host that follow the Unicode
  case tables, which are no part of this program. The model is exact on the ASCII code
  units (\<open>A\<close>-\<open>Z\<close> and \<open>a\<close>-\<open>z\<close> are exchanged, the other ASCII code units have no
  case) and leaves every other code unit as it is; the theorems that go through the case
  mapping are stated for ASCII strings.
\<close>

definition toLowerCase :: "jsstring \<Rightarrow> jsstring" where
  "toLowerCase s = map (\<lambda>c. if 0x41 \<le> c \<and> c \<le> 0x5A then c + 0x20 else c) s"


definition ascii :: "jsstring \<Rightarrow> bool" where
  "ascii s \<longleftrightarrow> list_all (\<lambda>c. c < 0x80) s"

text \<open>
  The code points of a string, as \<open>codePointAt\<close> and the string iterator read them: a
  high surrogate followed by a low surrogate is one code point, any other code unit
  stands for itself. \<open>utf16\<close> is the encoding back into code units.
\<close>

definition is_high_surrogate :: "jschar \<Rightarrow> bool" where
  "is_high_surrogate c \<longleftrightarrow> 0xD800 \<le> c \<and> c \<le> 0xDBFF"

definition is_low_surrogate :: "jschar \<Rightarrow> bool" where
  "is_low_surrogate c \<longleftrightarrow> 0xDC00 \<le> c \<and> c \<le> 0xDFFF"

fun codepoints :: "jsstring \<Rightarrow> nat list" where
  "codepoints [] = []"
| "codepoints [c] = [unat c]"
| "codepoints (c # d # cs) =
     (if is_high_surrogate c \<and> is_low_surrogate d
      then (0x10000 + (unat c - 0xD800) * 0x400 + (unat d - 0xDC00)) # codepoints cs
      else unat c # codepoints (d # cs))"

fun utf16 :: "nat list \<Rightarrow> jsstring" where
  "utf16 [] = []"
| "utf16 (n # ns) =
     (if n < 0x10000 then [of_nat n]
      else [of_nat (0xD800 + (n - 0x10000) div 0x400), of_nat (0xDC00 + (n - 0x10000) mod 0x400)])
     @ utf16 ns"

text \<open>The number of surrogate pairs: the code points that take two code units.\<close>

fun surrogate_pairs :: "jsstring \<Rightarrow> nat" where
  "surrogate_pairs [] = 0"
| "surrogate_pairs [c] = 0"
| "surrogate_pairs (c # d # cs) =
     (if is_high_surrogate c \<and> is_low_surrogate d then Suc (surrogate_pairs cs)
      else surrogate_pairs (d # cs))"

definition surrogate_free :: "jsstring \<Rightarrow> bool" where
  "surrogate_free s \<longleftrightarrow> list_all (\<lambda>c. \<not> is_high_surrogate c \<and> \<not> is_low_surrogate c) s"

section \<open>Regular expressions: \<open>replace\<close> and \<open>split\<close>\<close>

text \<open>
  A regular expression is modelled by its matcher: given whether the current index is 0
  (for \<open>^\<close>) and the rest of the string from the current index, the length of the match
  that starts there, if there is one. None of the expressions used looks behind
  otherwise.

  \<open>str.replace(/re/g, fn)\<close>: scan from the left; at a match, emit \<open>fn(match)\<close> and go on
  behind the match; elsewhere copy one code unit. (After an empty match the scan copies
  one code unit and moves on, as \<open>lastIndex\<close> is advanced.)
\<close>

type_synonym matcher = "bool \<Rightarrow> jsstring \<Rightarrow> nat option"

fun replace_g :: "matcher \<Rightarrow> (jsstring \<Rightarrow> jsstring) \<Rightarrow> bool \<Rightarrow> jsstring \<Rightarrow> jsstring" where
  "replace_g m fn start [] = (case m start [] of None \<Rightarrow> [] | Some n \<Rightarrow> fn [])"
| "replace_g m fn start (c # cs) =
     (case m start (c # cs) of
        None \<Rightarrow> c # replace_g m fn False cs
      | Some n \<Rightarrow>
          if n = 0 then fn [] @ c # replace_g m fn False cs
          else fn (take n (c # cs)) @ replace_g m fn False (drop (n - 1) cs))"

text \<open>
  \<open>str.split(/re/)\<close>, without captures: \<open>acc\<close> holds, reversed, the code units since the
  end of the last separator. A match that is empty and starts where the last separator
  ended does not split.
\<close>

fun split_go :: "(jsstring \<Rightarrow> nat option) \<Rightarrow> jsstring \<Rightarrow> jsstring \<Rightarrow> jsstring list" where
  "split_go m acc [] = [rev acc]"
| "split_go m acc (c # cs) =
     (case m (c # cs) of
        None \<Rightarrow> split_go m (c # acc) cs
      | Some n \<Rightarrow>
          if n = 0 then (if acc = [] then split_go m [c] cs else rev acc # split_go m [c] cs)
          else rev acc # split_go m [] (drop (n - 1) cs))"

definition split_re :: "(jsstring \<Rightarrow> nat option) \<Rightarrow> jsstring \<Rightarrow> jsstring list" where
  "split_re m s =
     (if s = [] then (case m [] of None \<Rightarrow> [[]] | Some n \<Rightarrow> []) else split_go m [] s)"

text \<open>The matchers of the expressions in the source.\<close>

definition re_class :: "(jschar \<Rightarrow> bool) \<Rightarrow> jsstring \<Rightarrow> nat option" where
  \<comment> \<open>one code unit of a class: \<open>/\s/\<close>, \<open>/[aeiouAEIOU]/\<close>, \<open>/[^\w\s]/\<close>\<close>
  "re_class P s = (case s of [] \<Rightarrow> None | c # cs \<Rightarrow> if P c then Some 1 else None)"

definition re_plus :: "(jschar \<Rightarrow> bool) \<Rightarrow> jsstring \<Rightarrow> nat option" where
  \<comment> \<open>one or more of a class, greedy: \<open>/\s+/\<close>, \<open>/[.!?]+/\<close>\<close>
  "re_plus P s = (case takeWhile P s of [] \<Rightarrow> None | c # cs \<Rightarrow> Some (Suc (length cs)))"



section \<open>The conversions\<close>





definition reverseText :: "jsstring \<Rightarrow> jsstring" where
  "reverseText text = concat (rev (map (\<lambda>c. [c]) text))"



section \<open>The case conversions as specifications\<close>







section \<open>Numbers\<close>

text \<open>
  A JavaScript number is an IEEE 754 binary64 value. The finite ones are rationals, and
  \<open>/\<close>, \<open>*\<close>, \<open>-\<close> and a decimal literal give the exact result rounded to the nearest
  binary64 value, ties to the even significand: \<open>fl\<close>. The quantities of the analysis
  are counts below \<open>2^53\<close>, their quotients, and sums of a few hundred times those, far
  from the ends of the exponent range, so \<open>fl\<close> leaves overflow and subnormal numbers
  out.
\<close>

function ilog2 :: "int \<Rightarrow> int" where
  "ilog2 n = (if n < 2 then 0 else 1 + ilog2 (n div 2))"
  by pat_completeness auto
termination
  by (relation "measure nat") auto

declare ilog2.simps [simp del]

definition pow2 :: "int \<Rightarrow> rat" where
  "pow2 e = (if 0 \<le> e then 2 ^ nat e else 1 / 2 ^ nat (- e))"

text \<open>The exponent \<open>e\<close> with \<open>2^e \<le> |x| < 2^(e+1)\<close>, for \<open>x \<noteq> 0\<close>.\<close>

definition binade :: "rat \<Rightarrow> int" where
  "binade x =
     (let (p, q) = quotient_of \<bar>x\<bar>;
          e = ilog2 p - ilog2 q
      in if \<bar>x\<bar> < pow2 e then e - 1 else e)"

definition round_even :: "rat \<Rightarrow> int" where
  "round_even m =
     (let f = \<lfloor>m\<rfloor>; d = m - of_int f
      in if d < 1 / 2 then f else if 1 / 2 < d then f + 1 else if even f then f else f + 1)"

definition fl :: "rat \<Rightarrow> rat" where
  "fl x = (if x = 0 then 0
           else of_int (round_even (x / pow2 (binade x - 52))) * pow2 (binade x - 52))"

definition fdiv :: "rat \<Rightarrow> rat \<Rightarrow> rat" where
  "fdiv a b = fl (a / b)"

definition fmul :: "rat \<Rightarrow> rat \<Rightarrow> rat" where
  "fmul a b = fl (a * b)"

definition fsub :: "rat \<Rightarrow> rat \<Rightarrow> rat" where
  "fsub a b = fl (a - b)"

text \<open>\<open>Math.round\<close> goes to the nearest integer, a tie upwards; \<open>Math.ceil\<close> is exact.\<close>

definition math_round :: "rat \<Rightarrow> int" where
  "math_round x = \<lfloor>x + 1 / 2\<rfloor>"

definition math_ceil :: "rat \<Rightarrow> int" where
  "math_ceil x = \<lceil>x\<rceil>"

section \<open>Objects used as dictionaries\<close>

text \<open>
  \<open>wordFreq\<close> and \<open>charFreq\<close> are plain objects (\<open>{}\<close>), so they inherit from
  \<open>Object.prototype\<close>, and \<open>Object.entries\<close> lists their own properties in the order of
  the language: the keys that are array indices first, in ascending numeric order, then
  the other keys in the order of their creation. An object is modelled by the list of
  its own properties in that order.

  A property value here is a count, or the text that \<open>+ 1\<close> makes of a value that is no
  number (an inherited function or object followed by \<open>1\<close>); the characters of that
  text are the engine's and are not modelled.
\<close>

datatype jsvalue = Number nat | Text

type_synonym jsobject = "(jsstring \<times> jsvalue) list"

definition is_digit :: "jschar \<Rightarrow> bool" where
  "is_digit c \<longleftrightarrow> 0x30 \<le> c \<and> c \<le> 0x39"

definition digits_value :: "jsstring \<Rightarrow> nat" where
  "digits_value k = foldl (\<lambda>n c. 10 * n + (unat c - 48)) 0 k"

text \<open>An array index: the canonical decimal numeral of an integer below \<open>2^32 - 1\<close>.\<close>

definition array_index :: "jsstring \<Rightarrow> nat option" where
  "array_index k =
     (if k \<noteq> [] \<and> list_all is_digit k \<and> (k = [0x30] \<or> hd k \<noteq> 0x30)
         \<and> digits_value k < 4294967295
      then Some (digits_value k) else None)"

definition object_prototype_keys :: "jsstring list" where
  "object_prototype_keys =
     [js ''constructor'', js ''__defineGetter__'', js ''__defineSetter__'',
      js ''hasOwnProperty'', js ''__lookupGetter__'', js ''__lookupSetter__'',
      js ''isPrototypeOf'', js ''propertyIsEnumerable'', js ''toString'', js ''valueOf'',
      js ''__proto__'', js ''toLocaleString'']"

text \<open>The place of a new own property among the existing ones.\<close>

fun own_insert :: "jsstring \<Rightarrow> jsvalue \<Rightarrow> jsobject \<Rightarrow> jsobject" where
  "own_insert k v [] = [(k, v)]"
| "own_insert k v ((k', v') # obj) =
     (case array_index k of
        None \<Rightarrow> (k', v') # own_insert k v obj
      | Some i \<Rightarrow>
          (case array_index k' of
             None \<Rightarrow> (k, v) # (k', v') # obj
           | Some j \<Rightarrow> if i < j then (k, v) # (k', v') # obj
                       else (k', v') # own_insert k v obj))"

text \<open>
  \<open>obj[k] = v\<close> for a primitive \<open>v\<close>: an own property is overwritten in place; the key
  \<open>__proto__\<close> reaches the inherited setter, which ignores a value that is no object;
  any other key becomes a new own property.
\<close>

definition own_set :: "jsstring \<Rightarrow> jsvalue \<Rightarrow> jsobject \<Rightarrow> jsobject" where
  "own_set k v obj =
     (if k \<in> fst ` set obj then map (\<lambda>(k', v'). if k' = k then (k', v) else (k', v')) obj
      else if k = js ''__proto__'' then obj
      else own_insert k v obj)"

text \<open>
  \<open>(obj[k] || 0) + 1\<close>: an own count is incremented; an own text gets another \<open>1\<close>
  appended; an inherited property is a function or an object, which is truthy and gives
  a text; a key found nowhere gives \<open>0 + 1\<close>.
\<close>

definition incremented :: "jsobject \<Rightarrow> jsstring \<Rightarrow> jsvalue" where
  "incremented obj k =
     (case map_of obj k of
        Some (Number n) \<Rightarrow> Number (n + 1)
      | Some Text \<Rightarrow> Text
      | None \<Rightarrow> if k \<in> set object_prototype_keys then Text else Number 1)"

definition count_key :: "jsobject \<Rightarrow> jsstring \<Rightarrow> jsobject" where
  "count_key obj k = own_set k (incremented obj k) obj"

text \<open>
  \<open>.sort(([,a], [,b]) => b - a)\<close>. \<open>Array.prototype.sort\<close> is stable. The comparator's
  value is \<open>b - a\<close>, and \<open>NaN\<close> (a text is no number) counts as 0. The model is the
  stable insertion sort; with counts only, every stable sort returns the same list.
\<close>

definition compare_counts :: "jsvalue \<Rightarrow> jsvalue \<Rightarrow> int" where
  "compare_counts a b =
     (case a of Number x \<Rightarrow> (case b of Number y \<Rightarrow> int y - int x | Text \<Rightarrow> 0) | Text \<Rightarrow> 0)"

fun insert_entry :: "'k \<times> jsvalue \<Rightarrow> ('k \<times> jsvalue) list \<Rightarrow> ('k \<times> jsvalue) list" where
  "insert_entry x [] = [x]"
| "insert_entry x (y # ys) =
     (if 0 < compare_counts (snd x) (snd y) then y # insert_entry x ys else x # y # ys)"

definition sort_entries :: "('k \<times> jsvalue) list \<Rightarrow> ('k \<times> jsvalue) list" where
  "sort_entries xs = foldr insert_entry xs []"

section \<open>The analysis\<close>

text \<open>
  The report of \<open>TextAnalysis\<close>. \<open>avgWordLength\<close> is absent from the report of an empty
  or whitespace-only text.
\<close>

datatype complexity = Simple | Moderate | ComplexText

record analysis =
  characters :: nat
  charactersNoSpaces :: nat
  words :: nat
  sentences :: nat
  paragraphs :: nat
  averageWordsPerSentence :: rat
  readingTime :: int
  readabilityScore :: int
  mostCommonWords :: "(jsstring \<times> jsvalue) list"
  characterFrequency :: jsobject
  textComplexity :: complexity
  avgWordLength :: "rat option"

definition is_terminator :: "jschar \<Rightarrow> bool" where
  \<comment> \<open>\<open>[.!?]\<close>\<close>
  "is_terminator c \<longleftrightarrow> c = 0x2E \<or> c = 0x21 \<or> c = 0x3F"

definition is_vowel :: "jschar \<Rightarrow> bool" where
  \<comment> \<open>\<open>[aeiouAEIOU]\<close>\<close>
  "is_vowel c \<longleftrightarrow>
     c = 0x61 \<or> c = 0x65 \<or> c = 0x69 \<or> c = 0x6F \<or> c = 0x75
     \<or> c = 0x41 \<or> c = 0x45 \<or> c = 0x49 \<or> c = 0x4F \<or> c = 0x55"

definition re_blank_line :: "jsstring \<Rightarrow> nat option" where
  \<comment> \<open>\<open>/\n\s*\n/\<close>: from a line feed, through whitespace, to the last line feed of that
      whitespace\<close>
  "re_blank_line s =
     (case s of [] \<Rightarrow> None
      | c # cs \<Rightarrow>
          if c = 0x0A \<and> 0x0A \<in> set (takeWhile is_space cs)
          then Some (Suc (length (takeWhile is_space cs)
                          - length (takeWhile (\<lambda>d. d \<noteq> 0x0A) (rev (takeWhile is_space cs)))))
          else None)"

definition stopWords :: "jsstring list" where
  "stopWords = map js
     [''the'', ''a'', ''an'', ''and'', ''or'', ''but'', ''in'', ''on'', ''at'', ''to'', ''for'',
      ''of'', ''with'', ''by'', ''is'', ''are'', ''was'', ''were'', ''be'', ''been'', ''have'',
      ''has'', ''had'', ''do'', ''does'', ''did'', ''will'', ''would'', ''could'', ''should'',
      ''may'', ''might'', ''must'', ''can'', ''this'', ''that'', ''these'', ''those'', ''i'',
      ''you'', ''he'', ''she'', ''it'', ''we'', ''they'', ''me'', ''him'', ''her'', ''us'',
      ''them'']"

text \<open>
  The constants of the function body, each as a function of \<open>text\<close>:
  \<^verbatim>\<open>
  const characters = text.length
  const charactersNoSpaces = text.replace(/\s/g, '').length
  const words = text.trim() ? text.trim().split(/\s+/).length : 0
  const sentences = text.split(/[.!?]+/).filter(s => s.trim().length > 0).length
  const paragraphs = text.split(/\n\s*\n/).filter(p => p.trim().length > 0).length
  const averageWordsPerSentence = sentences > 0 ? Math.round(words / sentences * 10) / 10 : 0
  const readingTime = Math.ceil(words / 200)
  \<close>
\<close>

definition charactersNoSpaces_of :: "jsstring \<Rightarrow> nat" where
  "charactersNoSpaces_of text =
     length (replace_g (\<lambda>start. re_class is_space) (\<lambda>match. []) True text)"

definition words_of :: "jsstring \<Rightarrow> nat" where
  "words_of text =
     (if trim text \<noteq> [] then length (split_re (re_plus is_space) (trim text)) else 0)"

definition sentences_of :: "jsstring \<Rightarrow> nat" where
  "sentences_of text =
     length (filter (\<lambda>s. 0 < length (trim s)) (split_re (re_plus is_terminator) text))"

definition paragraphs_of :: "jsstring \<Rightarrow> nat" where
  "paragraphs_of text =
     length (filter (\<lambda>p. 0 < length (trim p)) (split_re re_blank_line text))"

definition averageWordsPerSentence_of :: "jsstring \<Rightarrow> rat" where
  "averageWordsPerSentence_of text =
     (if 0 < sentences_of text
      then fdiv (of_int (math_round
                  (fmul (fdiv (of_nat (words_of text)) (of_nat (sentences_of text))) 10))) 10
      else 0)"

definition readingTime_of :: "jsstring \<Rightarrow> int" where
  "readingTime_of text = math_ceil (fdiv (of_nat (words_of text)) 200)"

text \<open>
  \<^verbatim>\<open>
  const avgSentenceLength = averageWordsPerSentence
  const avgSyllables = words > 0 ? text.split(/[aeiouAEIOU]/).length / words : 0
  const readabilityScore = Math.max(0, Math.min(100,
    206.835 - (1.015 * avgSentenceLength) - (84.6 * avgSyllables)))
  \<close>
\<close>

definition avgSyllables_of :: "jsstring \<Rightarrow> rat" where
  "avgSyllables_of text =
     (if 0 < words_of text
      then fdiv (of_nat (length (split_re (re_class is_vowel) text))) (of_nat (words_of text))
      else 0)"

definition readabilityScore_of :: "jsstring \<Rightarrow> rat" where
  "readabilityScore_of text =
     max 0 (min 100
       (fsub (fsub (fl (206835 / 1000)) (fmul (fl (1015 / 1000)) (averageWordsPerSentence_of text)))
             (fmul (fl (846 / 10)) (avgSyllables_of text))))"

text \<open>
  \<^verbatim>\<open>
  const wordFreq = {}
  text.toLowerCase().replace(/[^\w\s]/g, '').split(/\s+/).forEach(word => {
    if (word.length > 2 && !stopWords.has(word)) {
      wordFreq[word] = (wordFreq[word] || 0) + 1
    }
  })
  const mostCommonWords = Object.entries(wordFreq)
    .sort(([,a], [,b]) => b - a).slice(0, 5).map(([word, count]) => ({ word, count }))
  \<close>
\<close>

definition count_word :: "jsobject \<Rightarrow> jsstring \<Rightarrow> jsobject" where
  "count_word wordFreq word =
     (if 2 < length word \<and> word \<notin> set stopWords then count_key wordFreq word else wordFreq)"

definition word_tokens :: "jsstring \<Rightarrow> jsstring list" where
  "word_tokens text =
     split_re (re_plus is_space)
       (replace_g (\<lambda>start. re_class (\<lambda>c. \<not> is_word c \<and> \<not> is_space c)) (\<lambda>match. []) True
          (toLowerCase text))"

definition wordFreq_of :: "jsstring \<Rightarrow> jsobject" where
  "wordFreq_of text = foldl count_word [] (word_tokens text)"

definition mostCommonWords_of :: "jsstring \<Rightarrow> (jsstring \<times> jsvalue) list" where
  "mostCommonWords_of text = take 5 (sort_entries (wordFreq_of text))"

text \<open>
  \<^verbatim>\<open>
  const charFreq = {}
  text.toLowerCase().replace(/\s/g, '').split('').forEach(char => {
    if (/[a-z]/.test(char)) { charFreq[char] = (charFreq[char] || 0) + 1 }
  })
  const characterFrequency = Object.entries(charFreq)
    .sort(([,a], [,b]) => b - a).slice(0, 5)
    .reduce((obj, [char, count]) => { obj[char] = count; return obj }, {})
  \<close>
\<close>

definition count_char :: "jsobject \<Rightarrow> jsstring \<Rightarrow> jsobject" where
  "count_char charFreq char =
     (if re_class (\<lambda>c. 0x61 \<le> c \<and> c \<le> 0x7A) char \<noteq> None then count_key charFreq char
      else charFreq)"

definition charFreq_of :: "jsstring \<Rightarrow> jsobject" where
  "charFreq_of text =
     foldl count_char []
       (map (\<lambda>c. [c])
          (replace_g (\<lambda>start. re_class is_space) (\<lambda>match. []) True (toLowerCase text)))"

definition characterFrequency_of :: "jsstring \<Rightarrow> jsobject" where
  "characterFrequency_of text =
     foldl (\<lambda>obj (char, count). own_set char count obj) []
       (take 5 (sort_entries (charFreq_of text)))"

text \<open>
  \<^verbatim>\<open>
  const avgWordLength = charactersNoSpaces / words || 0
  let textComplexity = 'Simple'
  if (avgSentenceLength > 20 || avgWordLength > 6) { textComplexity = 'Complex' }
  else if (avgSentenceLength > 15 || avgWordLength > 5) { textComplexity = 'Moderate' }
  \<close>
  \<open>words\<close> is at least 1 where this is computed, so the quotient is a number; \<open>|| 0\<close>
  then replaces 0 by 0.
\<close>

definition avgWordLength_of :: "jsstring \<Rightarrow> rat" where
  "avgWordLength_of text =
     (if fdiv (of_nat (charactersNoSpaces_of text)) (of_nat (words_of text)) = 0 then 0
      else fdiv (of_nat (charactersNoSpaces_of text)) (of_nat (words_of text)))"

definition textComplexity_of :: "jsstring \<Rightarrow> complexity" where
  "textComplexity_of text =
     (if 20 < averageWordsPerSentence_of text \<or> 6 < avgWordLength_of text then ComplexText
      else if 15 < averageWordsPerSentence_of text \<or> 5 < avgWordLength_of text then Moderate
      else Simple)"

text \<open>
  The report: the fixed one behind the guard
  \<open>if (!text || text.trim().length === 0)\<close>, the computed one otherwise, with
  \<open>readabilityScore: Math.round(readabilityScore)\<close> and
  \<open>avgWordLength: Math.round(avgWordLength * 10) / 10\<close>.
\<close>

definition analyze :: "jsstring \<Rightarrow> analysis" where
  "analyze text =
     (if text = [] \<or> length (trim text) = 0
      then \<lparr>characters = 0, charactersNoSpaces = 0, words = 0, sentences = 0, paragraphs = 0,
            averageWordsPerSentence = 0, readingTime = 0, readabilityScore = 0,
            mostCommonWords = [], characterFrequency = [], textComplexity = Simple,
            avgWordLength = None\<rparr>
      else \<lparr>characters = length text,
            charactersNoSpaces = charactersNoSpaces_of text,
            words = words_of text,
            sentences = sentences_of text,
            paragraphs = paragraphs_of text,
            averageWordsPerSentence = averageWordsPerSentence_of text,
            readingTime = readingTime_of text,
            readabilityScore = math_round (readabilityScore_of text),
            mostCommonWords = mostCommonWords_of text,
            characterFrequency = characterFrequency_of text,
            textComplexity = textComplexity_of text,
            avgWordLength =
              Some (fdiv (of_int (math_round (fmul (avgWordLength_of text) 10))) 10)\<rparr>)"

section \<open>The analysis as the specification words it\<close>

text \<open>
  Again no translations of code, but the readings of the specification that the
  theorems compare with \<open>analyze\<close>.

  The maximal runs of the characters of a class, in order: the whitespace-delimited
  tokens are the runs of non-whitespace, the segments between sentence terminators the
  runs of non-terminators. \<open>acc\<close> holds the run being read, reversed.
\<close>

fun runs_go :: "(jschar \<Rightarrow> bool) \<Rightarrow> jsstring \<Rightarrow> jsstring \<Rightarrow> jsstring list" where
  "runs_go P acc [] = (if acc = [] then [] else [rev acc])"
| "runs_go P acc (c # cs) =
     (if P c then runs_go P (c # acc) cs
      else (if acc = [] then [] else [rev acc]) @ runs_go P [] cs)"

definition runs :: "(jschar \<Rightarrow> bool) \<Rightarrow> jsstring \<Rightarrow> jsstring list" where
  "runs P s = runs_go P [] s"

text \<open>
  The sentence count read literally: the segments of the split that are not the empty
  string.
\<close>

definition sentences_claimed :: "jsstring \<Rightarrow> nat" where
  "sentences_claimed text =
     length (filter (\<lambda>s. s \<noteq> []) (split_re (re_plus is_terminator) text))"

text \<open>
  The readability score with syllables read as the specification words them: the text
  is split at runs of vowels.
\<close>

definition avgSyllables_claimed :: "jsstring \<Rightarrow> rat" where
  "avgSyllables_claimed text =
     (if words_of text = 0 then 0
      else fdiv (of_nat (length (split_re (re_plus is_vowel) text))) (of_nat (words_of text)))"

definition readabilityScore_claimed :: "jsstring \<Rightarrow> int" where
  "readabilityScore_claimed text =
     math_round (max 0 (min 100
       (fsub (fsub (fl (206835 / 1000)) (fmul (fl (1015 / 1000)) (averageWordsPerSentence_of text)))
             (fmul (fl (846 / 10)) (avgSyllables_claimed text)))))"

text \<open>
  The ranking of the most common words as the specification words it. The counted
  tokens are the tokens longer than 2 that are no stop words; \<open>tally\<close> lists each
  distinct token once, in the order of first occurrence, with its number of occurrences;
  \<open>sort_key\<close> is the stable sort of the library, here by descending count.
\<close>

definition counted_tokens :: "jsstring \<Rightarrow> jsstring list" where
  "counted_tokens text =
     filter (\<lambda>word. 2 < length word \<and> word \<notin> set stopWords) (word_tokens text)"

fun tally :: "'a list \<Rightarrow> ('a \<times> nat) list" where
  "tally [] = []"
| "tally (w # ws) = (w, Suc (count_list ws w)) # filter (\<lambda>e. fst e \<noteq> w) (tally ws)"

definition mostCommonWords_claimed :: "jsstring \<Rightarrow> (jsstring \<times> nat) list" where
  "mostCommonWords_claimed text =
     take 5 (sort_key (\<lambda>e. - int (snd e)) (tally (counted_tokens text)))"

text \<open>
  The keys on which a plain object is a faithful dictionary: no array index, and no name
  of a property of \<open>Object.prototype\<close>.
\<close>

definition plain_key :: "jsstring \<Rightarrow> bool" where
  "plain_key k \<longleftrightarrow> array_index k = None \<and> k \<notin> set object_prototype_keys"

text \<open>An object whose property values are the counts of an association list.\<close>

definition counts_obj :: "(jsstring \<times> nat) list \<Rightarrow> jsobject" where
  "counts_obj al = map (\<lambda>e. (fst e, Number (snd e))) al"

section \<open>Helper lemmas\<close>

lemma blank_simps:
  "blank [] \<longleftrightarrow> True"
  "blank (c # cs) \<longleftrightarrow> is_space c \<and> blank cs"
  by (auto simp: blank_def trim_def dropWhile_eq_Nil_conv)

lemma run_append: "run st (es @ fs) = run (run st es) fs"
  by (induction es arbitrary: st) simp_all

lemma created_append: "created st (es @ fs) = created st es @ created (run st es) fs"
proof (induction es arbitrary: st)
  case Nil
  show ?case by simp
next
  case (Cons e es)
  show ?case by (cases e) (simp_all add: Cons.IH)
qed

lemma history_step:
  "conversionHistory st = take 10 hs \<Longrightarrow>
   conversionHistory (step st e) = take 10 (rev (created st [e]) @ hs)"
proof (cases e)
  case (Conversion ty f now clock)
  assume h: "conversionHistory st = take 10 hs"
  have "take 9 (take 10 hs) = take 9 hs" by simp
  with h Conversion show ?thesis
    by (simp add: handleConversion_def)
qed (simp_all add: clearAll_def)

lemma history_run:
  "conversionHistory st = take 10 hs \<Longrightarrow>
   conversionHistory (run st es) = take 10 (rev (created st es) @ hs)"
proof (induction es arbitrary: st hs)
  case Nil
  then show ?case by simp
next
  case (Cons e es)
  have c: "created st (e # es) = created st [e] @ created (step st e) es"
    using created_append [of st "[e]" es] by simp
  from history_step [OF Cons.prems]
  have "conversionHistory (run (step st e) es)
          = take 10 (rev (created (step st e) es) @ rev (created st [e]) @ hs)"
    by (rule Cons.IH)
  with c show ?case by simp
qed

lemma trim_decomp: "dropWhile is_space s = trim s @ rev (takeWhile is_space (rev (dropWhile is_space s)))"
proof -
  let ?r = "rev (dropWhile is_space s)"
  have "trim s @ rev (takeWhile is_space ?r) = rev (takeWhile is_space ?r @ dropWhile is_space ?r)"
    by (simp only: trim_def rev_append)
  also have "\<dots> = dropWhile is_space s"
    by (simp only: takeWhile_dropWhile_id rev_rev_ident)
  finally show ?thesis by (rule sym)
qed

lemma trim_no_lead: "dropWhile is_space (trim s) = trim s"
proof (cases "trim s")
  case Nil
  then show ?thesis by simp
next
  case (Cons x xs)
  with trim_decomp [of s] have d: "dropWhile is_space s = x # xs @ rev (takeWhile is_space (rev (dropWhile is_space s)))"
    by simp
  have "\<not> is_space x"
    using hd_dropWhile [of is_space s] d by (metis list.sel(1) list.distinct(1))
  with Cons show ?thesis by simp
qed

lemma trim_no_trail: "dropWhile is_space (rev (trim s)) = rev (trim s)"
  by (simp add: trim_def)











lemma reverseText_rev: "reverseText s = rev s"
  by (simp add: reverseText_def rev_map)

lemma codepoints_surrogate_free:
  "surrogate_free s \<Longrightarrow> codepoints s = map unat s"
  by (induction s rule: codepoints.induct) (simp_all add: surrogate_free_def)

lemma utf16_map_unat: "utf16 (map unat (s :: jsstring)) = s"
proof (induction s)
  case Nil
  show ?case by simp
next
  case (Cons c cs)
  have "unat c < 2 ^ 16" using unsigned_less [of c, where ?'a = nat] by simp
  then have "unat c < 0x10000" by simp
  with Cons show ?case by simp
qed

lemma length_codepoints: "length s = length (codepoints s) + surrogate_pairs s"
  by (induction s rule: codepoints.induct) simp_all

lemma ascii_surrogate_free: "ascii s \<Longrightarrow> surrogate_free s"
proof -
  have "\<not> is_high_surrogate c \<and> \<not> is_low_surrogate c" if "c < 0x80" for c :: jschar
    using that unfolding is_high_surrogate_def is_low_surrogate_def by unat_arith
  then show "ascii s \<Longrightarrow> surrogate_free s"
    unfolding ascii_def surrogate_free_def by (induction s) simp_all
qed




















lemma blank_iff: "blank s \<longleftrightarrow> (\<forall>c\<in>set s. is_space c)"
  by (induction s) (simp_all add: blank_simps)

lemma trim_hd: "trim s \<noteq> [] \<Longrightarrow> \<not> is_space (hd (trim s))"
  using hd_dropWhile [of is_space "trim s"] by (simp add: trim_no_lead)

lemma trim_last: "trim s \<noteq> [] \<Longrightarrow> \<not> is_space (last (trim s))"
  using hd_dropWhile [of is_space "rev (trim s)"] by (simp add: trim_no_trail hd_rev)

lemma re_plus_Cons:
  "re_plus Q (c # cs) = (if Q c then Some (Suc (length (takeWhile Q cs))) else None)"
  by (simp add: re_plus_def)

lemma split_go_plus_Cons:
  "split_go (re_plus Q) acc (c # cs) =
     (if Q c then rev acc # split_go (re_plus Q) [] (dropWhile Q cs)
      else split_go (re_plus Q) (c # acc) cs)"
  by (simp add: re_plus_Cons dropWhile_eq_drop)

lemma split_re_plus: "split_re (re_plus Q) s = split_go (re_plus Q) [] s"
  by (simp add: split_re_def re_plus_def)

lemma runs_go_skip:
  "runs_go (\<lambda>c. \<not> Q c) [] (dropWhile Q cs) = runs_go (\<lambda>c. \<not> Q c) [] cs"
  by (induction cs) simp_all

lemma filter_split_runs:
  "filter (\<lambda>p. p \<noteq> []) (split_go (re_plus Q) acc s) = runs_go (\<lambda>c. \<not> Q c) acc s"
proof (induction s arbitrary: acc rule: length_induct)
  case (1 s)
  show ?case
  proof (cases s)
    case Nil
    then show ?thesis by simp
  next
    case (Cons c cs)
    show ?thesis
    proof (cases "Q c")
      case True
      have "length (dropWhile Q cs) \<le> length cs" by (rule length_dropWhile_le)
      then have "length (dropWhile Q cs) < length s" using Cons by simp
      with 1 have "filter (\<lambda>p. p \<noteq> []) (split_go (re_plus Q) [] (dropWhile Q cs))
                     = runs_go (\<lambda>c. \<not> Q c) [] (dropWhile Q cs)" by blast
      with True Cons show ?thesis
        by (simp only: split_go_plus_Cons runs_go_skip runs_go.simps) simp
    next
      case False
      have "length cs < length s" using Cons by simp
      with 1 have "filter (\<lambda>p. p \<noteq> []) (split_go (re_plus Q) (c # acc) cs)
                     = runs_go (\<lambda>c. \<not> Q c) (c # acc) cs" by blast
      with False Cons show ?thesis
        by (simp only: split_go_plus_Cons runs_go.simps) simp
    qed
  qed
qed

lemma split_go_no_empty:
  "s \<noteq> [] \<Longrightarrow> \<not> Q (last s) \<Longrightarrow> acc \<noteq> [] \<or> \<not> Q (hd s) \<Longrightarrow>
     [] \<notin> set (split_go (re_plus Q) acc s)"
proof (induction s arbitrary: acc rule: length_induct)
  case (1 s)
  from \<open>s \<noteq> []\<close> obtain c cs where Cons: "s = c # cs" by (cases s) auto
  show ?case
  proof (cases "Q c")
    case True
    with 1(4) Cons have acc: "acc \<noteq> []" by simp
    let ?d = "dropWhile Q cs"
    have cs: "cs \<noteq> []" using 1(3) True Cons by auto
    have dn: "?d \<noteq> []"
    proof
      assume "?d = []"
      then have "\<forall>x\<in>set cs. Q x" by (simp add: dropWhile_eq_Nil_conv)
      moreover have "last s \<in> set cs" using cs Cons by simp
      ultimately show False using 1(3) by blast
    qed
    have hd: "\<not> Q (hd ?d)" using dn by (rule hd_dropWhile)
    have "cs = takeWhile Q cs @ ?d" by simp
    then have "last cs = last ?d" using dn by (metis last_appendR)
    then have la: "\<not> Q (last ?d)" using 1(3) cs Cons by simp
    have "length ?d \<le> length cs" by (rule length_dropWhile_le)
    then have "length ?d < length s" using Cons by simp
    with 1(1) dn la hd have "[] \<notin> set (split_go (re_plus Q) [] ?d)" by blast
    with acc True Cons show ?thesis by (simp only: split_go_plus_Cons) simp
  next
    case False
    show ?thesis
    proof (cases cs)
      case Nil
      with False Cons show ?thesis by (simp only: split_go_plus_Cons) simp
    next
      case (Cons d ds)
      have "length cs < length s" using \<open>s = c # cs\<close> by simp
      moreover have "cs \<noteq> []" using Cons by simp
      moreover have "\<not> Q (last cs)" using 1(3) \<open>s = c # cs\<close> Cons by simp
      ultimately have "[] \<notin> set (split_go (re_plus Q) (c # acc) cs)" using 1(1) by blast
      with False \<open>s = c # cs\<close> show ?thesis by (simp only: split_go_plus_Cons) simp
    qed
  qed
qed

lemma words_of_runs: "words_of s = length (runs (\<lambda>c. \<not> is_space c) (trim s))"
proof (cases "trim s = []")
  case True
  then show ?thesis by (simp add: words_of_def runs_def)
next
  case False
  have "[] \<notin> set (split_go (re_plus is_space) [] (trim s))"
    using False trim_last [OF False] trim_hd [OF False] by (intro split_go_no_empty) simp_all
  then have "filter (\<lambda>p. p \<noteq> []) (split_go (re_plus is_space) [] (trim s))
               = split_go (re_plus is_space) [] (trim s)"
    by (simp add: filter_id_conv) metis
  with filter_split_runs [of is_space "[]" "trim s"]
  have "split_go (re_plus is_space) [] (trim s) = runs (\<lambda>c. \<not> is_space c) (trim s)"
    by (simp add: runs_def)
  with False show ?thesis by (simp add: words_of_def split_re_plus)
qed

lemma sentences_of_runs:
  "sentences_of s = length (filter (\<lambda>seg. \<not> blank seg) (runs (\<lambda>c. \<not> is_terminator c) s))"
proof -
  have "filter (\<lambda>p. 0 < length (trim p)) (split_go (re_plus is_terminator) [] s)
          = filter (\<lambda>p. \<not> blank p) (filter (\<lambda>p. p \<noteq> []) (split_go (re_plus is_terminator) [] s))"
    by (auto simp add: blank_def intro!: filter_cong) (simp add: trim_def)
  then show ?thesis
    by (simp only: sentences_of_def split_re_plus filter_split_runs runs_def)
qed

lemma runs_go_subset:
  "r \<in> set (runs_go P acc s) \<Longrightarrow> set r \<subseteq> set acc \<union> set s"
proof (induction s arbitrary: acc)
  case Nil
  then show ?case by (auto split: if_splits)
next
  case (Cons c cs)
  then show ?case by (fastforce split: if_splits)
qed

lemma blank_no_sentences:
  "blank s \<Longrightarrow> filter (\<lambda>seg. \<not> blank seg) (runs P s) = []"
proof -
  assume b: "blank s"
  have "blank r" if "r \<in> set (runs P s)" for r
    using runs_go_subset [of r P "[]" s] that b by (auto simp: runs_def blank_iff)
  then show ?thesis by (simp add: filter_empty_conv)
qed

lemma split_go_class_length:
  "length (split_go (re_class P) acc s) = Suc (length (filter P s))"
  by (induction s arbitrary: acc) (simp_all add: re_class_def)

lemma split_re_class_length:
  "length (split_re (re_class P) s) = length (filter P s) + 1"
  by (simp add: split_re_def split_go_class_length re_class_def)

lemma split_go_nonempty: "split_go m acc s \<noteq> []"
  by (induction m acc s rule: split_go.induct) (auto split: option.splits)

lemma words_of_pos: "\<not> blank s \<Longrightarrow> 0 < words_of s"
  by (simp add: words_of_def blank_def split_re_def split_go_nonempty)

text \<open>
  \<open>fl x\<close> is a binary floating-point number with a significand of 53 bits, and no
  number with the exponent of \<open>x\<close> is nearer to \<open>x\<close>.
\<close>

lemma ilog2_bounds:
  "1 \<le> n \<Longrightarrow> 0 \<le> ilog2 n \<and> 2 ^ nat (ilog2 n) \<le> n \<and> n < 2 ^ nat (ilog2 n + 1)"
proof (induction n rule: ilog2.induct)
  case (1 n)
  show ?case
  proof (cases "n < 2")
    case True
    with 1(2) have "n = 1" by simp
    then show ?thesis by (simp add: ilog2.simps [of 1])
  next
    case False
    then have h: "1 \<le> n div 2" by simp
    from 1(1) [OF False h]
    have k: "0 \<le> ilog2 (n div 2)" and lo: "2 ^ nat (ilog2 (n div 2)) \<le> n div 2"
      and hi: "n div 2 < 2 ^ nat (ilog2 (n div 2) + 1)" by simp_all
    have e: "ilog2 n = 1 + ilog2 (n div 2)" using False by (subst ilog2.simps) simp
    have n1: "nat (1 + ilog2 (n div 2)) = Suc (nat (ilog2 (n div 2)))" using k by simp
    have n2: "nat (1 + ilog2 (n div 2) + 1) = Suc (Suc (nat (ilog2 (n div 2))))" using k by simp
    have n3: "nat (ilog2 (n div 2) + 1) = Suc (nat (ilog2 (n div 2)))" using k by simp
    have "2 * (n div 2) \<le> n" by simp
    with lo have a: "2 ^ Suc (nat (ilog2 (n div 2))) \<le> n" by simp
    have "n < 2 * (n div 2) + 2" by simp
    with hi n3 have b: "n < 2 ^ Suc (Suc (nat (ilog2 (n div 2))))" by simp
    show ?thesis unfolding e n1 n2 using k a b by simp
  qed
qed


lemma pow2_powi: "pow2 e = 2 powi e"
  by (simp add: pow2_def power_int_def inverse_eq_divide power_one_over)

lemma pow2_pos: "0 < pow2 e"
  by (simp add: pow2_powi)

lemma binade_bounds:
  assumes "x \<noteq> 0"
  shows "pow2 (binade x) \<le> \<bar>x\<bar> \<and> \<bar>x\<bar> < pow2 (binade x + 1)"
proof -
  obtain p q where pq: "quotient_of \<bar>x\<bar> = (p, q)" by (cases "quotient_of \<bar>x\<bar>")
  then have q: "0 < q" by (rule quotient_of_denom_pos)
  have x: "\<bar>x\<bar> = of_int p / of_int q" using pq by (rule quotient_of_div)
  have "0 < \<bar>x\<bar>" using assms by simp
  then have p: "0 < p" using x q by (simp add: zero_less_divide_iff)
  let ?lp = "ilog2 p" and ?lq = "ilog2 q"
  from ilog2_bounds [of p] p have lp: "0 \<le> ?lp" "2 ^ nat ?lp \<le> p" "p < 2 ^ nat (?lp + 1)" by simp_all
  from ilog2_bounds [of q] q have lq: "0 \<le> ?lq" "2 ^ nat ?lq \<le> q" "q < 2 ^ nat (?lq + 1)" by simp_all
  have P1: "(2::rat) powi ?lp \<le> of_int p" using lp by (simp add: power_int_def)
  have P2: "of_int p < (2::rat) powi (?lp + 1)" using lp by (simp add: power_int_def)
  have Q1: "(2::rat) powi ?lq \<le> of_int q" using lq by (simp add: power_int_def)
  have Q2: "of_int q < (2::rat) powi (?lq + 1)" using lq by (simp add: power_int_def)
  have qpos: "(0::rat) < of_int q" using q by simp
  have lower: "(2::rat) powi (?lp - ?lq - 1) < \<bar>x\<bar>"
  proof -
    have "(2::rat) powi (?lp - ?lq - 1) = 2 powi ?lp / 2 powi (?lq + 1)"
      by (simp add: power_int_diff algebra_simps)
    also have "\<dots> \<le> of_int p / 2 powi (?lq + 1)"
      using P1 by (simp add: divide_right_mono)
    also have "\<dots> < of_int p / of_int q"
      using Q2 qpos p by (simp add: divide_strict_left_mono)
    finally show ?thesis by (simp add: x)
  qed
  have upper: "\<bar>x\<bar> < (2::rat) powi (?lp - ?lq + 1)"
  proof -
    have "(of_int p :: rat) / of_int q < 2 powi (?lp + 1) / of_int q"
      using P2 qpos by (simp add: divide_strict_right_mono)
    also have "\<dots> \<le> 2 powi (?lp + 1) / 2 powi ?lq"
      using Q1 by (intro frac_le) simp_all
    also have "\<dots> = (2::rat) powi (?lp - ?lq + 1)"
      by (simp add: power_int_diff algebra_simps)
    finally show ?thesis by (simp add: x)
  qed
  show ?thesis
  proof (cases "\<bar>x\<bar> < pow2 (?lp - ?lq)")
    case True
    then have "binade x = ?lp - ?lq - 1" by (simp add: binade_def pq)
    with True lower show ?thesis by (simp add: pow2_powi)
  next
    case False
    then have "binade x = ?lp - ?lq" by (simp add: binade_def pq)
    with False upper show ?thesis by (simp add: pow2_powi)
  qed
qed


lemma round_even_cases:
  "round_even m = \<lfloor>m\<rfloor> \<and> m - of_int \<lfloor>m\<rfloor> \<le> 1 / 2
   \<or> round_even m = \<lfloor>m\<rfloor> + 1 \<and> 1 / 2 \<le> m - of_int \<lfloor>m\<rfloor>"
  by (auto simp add: round_even_def Let_def)

lemma round_even_nearest: "\<bar>of_int (round_even m) - m\<bar> \<le> \<bar>of_int k - m\<bar>"
proof -
  let ?f = "\<lfloor>m\<rfloor>"
  have f: "of_int ?f \<le> m" "m < of_int ?f + 1" by linarith+
  consider "k \<le> ?f" | "?f + 1 \<le> k" by linarith
  then show ?thesis
  proof cases
    case 1
    then have "(of_int k :: rat) \<le> of_int ?f" by simp
    with f round_even_cases [of m] show ?thesis by auto
  next
    case 2
    then have "(of_int ?f :: rat) + 1 \<le> of_int k" by (metis of_int_1 of_int_add of_int_le_iff)
    with f round_even_cases [of m] show ?thesis by auto
  qed
qed

lemma fl_nearest:
  assumes "x \<noteq> 0"
  shows "fl x = of_int (round_even (x / pow2 (binade x - 52))) * pow2 (binade x - 52)"
    and "\<bar>fl x - x\<bar> \<le> \<bar>of_int k * pow2 (binade x - 52) - x\<bar>"
    and "2 ^ 52 \<le> \<bar>round_even (x / pow2 (binade x - 52))\<bar>"
    and "\<bar>round_even (x / pow2 (binade x - 52))\<bar> \<le> 2 ^ 53"
proof -
  let ?u = "pow2 (binade x - 52)"
  let ?m = "x / ?u"
  let ?r = "round_even ?m"
  have u: "0 < ?u" by (rule pow2_pos)
  show flx: "fl x = of_int ?r * ?u" using assms by (simp add: fl_def)
  have xm: "x = ?m * ?u" using u by simp
  have "\<bar>fl x - x\<bar> = \<bar>of_int ?r - ?m\<bar> * ?u"
  proof -
    have "fl x - x = (of_int ?r - ?m) * ?u" using flx u by (simp add: algebra_simps)
    then show ?thesis using u by (simp add: abs_mult)
  qed
  also have "\<dots> \<le> \<bar>of_int k - ?m\<bar> * ?u"
    using round_even_nearest [of ?m k] u by (simp add: mult_right_mono)
  also have "\<dots> = \<bar>of_int k * ?u - x\<bar>"
  proof -
    have "of_int k * ?u - x = (of_int k - ?m) * ?u" using u by (simp add: algebra_simps)
    then show ?thesis using u by (simp add: abs_mult)
  qed
  finally show "\<bar>fl x - x\<bar> \<le> \<bar>of_int k * ?u - x\<bar>" .
  have b: "pow2 (binade x) \<le> \<bar>x\<bar>" "\<bar>x\<bar> < pow2 (binade x + 1)"
    using binade_bounds [OF assms] by simp_all
  have am: "\<bar>?m\<bar> = \<bar>x\<bar> / ?u" using u by (simp add: abs_divide)
  have p52: "pow2 (binade x) / ?u = 2 ^ 52"
    by (simp add: pow2_powi power_int_diff)
  have p53: "pow2 (binade x + 1) / ?u = 2 ^ 53"
    by (simp add: pow2_powi power_int_diff power_int_add)
  have lo: "2 ^ 52 \<le> \<bar>?m\<bar>"
    using b(1) u by (simp only: am p52 [symmetric] divide_right_mono less_imp_le)
  have hi: "\<bar>?m\<bar> < 2 ^ 53"
    using b(2) u by (simp only: am p53 [symmetric] divide_strict_right_mono)
  have i52: "\<bar>of_int ?r - ?m\<bar> \<le> \<bar>of_int (2 ^ 52) - ?m\<bar>" "\<bar>of_int ?r - ?m\<bar> \<le> \<bar>of_int (- (2 ^ 52)) - ?m\<bar>"
    "\<bar>of_int ?r - ?m\<bar> \<le> \<bar>of_int (2 ^ 53) - ?m\<bar>" "\<bar>of_int ?r - ?m\<bar> \<le> \<bar>of_int (- (2 ^ 53)) - ?m\<bar>"
    by (rule round_even_nearest)+
  have "(2 ^ 52 :: rat) \<le> \<bar>of_int ?r\<bar> \<and> \<bar>of_int ?r :: rat\<bar> \<le> 2 ^ 53"
    using lo hi i52 by (simp only: of_int_minus of_int_power of_int_numeral) linarith
  then have "(of_int (2 ^ 52) :: rat) \<le> of_int \<bar>?r\<bar> \<and> (of_int \<bar>?r\<bar> :: rat) \<le> of_int (2 ^ 53)"
    by simp
  then have "2 ^ 52 \<le> \<bar>?r\<bar> \<and> \<bar>?r\<bar> \<le> 2 ^ 53"
    by (simp only: of_int_le_iff)
  then show "2 ^ 52 \<le> \<bar>?r\<bar>" and "\<bar>?r\<bar> \<le> 2 ^ 53" by simp_all
qed

lemma fl_examples:
  "fl (1 / 10) = 3602879701896397 / 36028797018963968"
  "fl (fl (1 / 10) + fl (2 / 10)) \<noteq> fl (3 / 10)"
  "fl (fl (1005 / 1000) * 100) = 7072058789855231 / 70368744177664"
  by code_simp+

lemma math_round_range: "0 \<le> x \<Longrightarrow> x \<le> 100 \<Longrightarrow> 0 \<le> math_round x \<and> math_round x \<le> 100"
  unfolding math_round_def by (simp add: le_floor_iff floor_le_iff) 

lemma trim_Nil: "trim [] = []"
  by (simp add: trim_def)

lemma analyze_blank: "blank s \<Longrightarrow> analyze s = \<lparr>characters = 0, charactersNoSpaces = 0, words = 0, sentences = 0, paragraphs = 0,
            averageWordsPerSentence = 0, readingTime = 0, readabilityScore = 0,
            mostCommonWords = [], characterFrequency = [], textComplexity = Simple,
            avgWordLength = None\<rparr>"
  by (auto simp add: analyze_def blank_def)

lemma analyze_fields:
  assumes "\<not> blank s"
  shows "characters (analyze s) = length s"
    and "words (analyze s) = words_of s"
    and "sentences (analyze s) = sentences_of s"
    and "averageWordsPerSentence (analyze s) = averageWordsPerSentence_of s"
    and "readabilityScore (analyze s) = math_round (readabilityScore_of s)"
    and "mostCommonWords (analyze s) = mostCommonWords_of s"
    and "textComplexity (analyze s) = textComplexity_of s"
  using assms by (auto simp add: analyze_def blank_def trim_Nil)

lemma example_not_blank: "\<not> blank (js ''Hello world. This is a test.'')"
  by (simp add: js_def blank_simps is_space_def)

lemma example_words: "words_of (js ''Hello world. This is a test.'') = 6"
  by (simp add: words_of_def split_re_def re_plus_def js_def trim_def is_space_def)

lemma example_sentences: "sentences_of (js ''Hello world. This is a test.'') = 2"
  by (simp add: sentences_of_def split_re_def re_plus_def js_def trim_def is_space_def
      is_terminator_def)

lemma example_charactersNoSpaces: "charactersNoSpaces_of (js ''Hello world. This is a test.'') = 23"
  by (simp add: charactersNoSpaces_of_def re_class_def js_def is_space_def)

lemma example_average: "averageWordsPerSentence_of (js ''Hello world. This is a test.'') = 3"
proof -
  have "fdiv (of_int (math_round (fmul (fdiv 6 2) 10))) 10 = 3" by code_simp
  then show ?thesis
    by (simp add: averageWordsPerSentence_of_def example_words example_sentences)
qed

lemma example_complexity: "textComplexity_of (js ''Hello world. This is a test.'') = Simple"
proof -
  have "fdiv 23 6 \<noteq> 0 \<and> \<not> 5 < fdiv 23 6" by code_simp
  then show ?thesis
    by (simp add: textComplexity_of_def avgWordLength_of_def example_average example_words
        example_charactersNoSpaces)
qed

lemma book_words: "words_of (js ''book'') = 1"
  by (simp add: words_of_def split_re_def re_plus_def js_def trim_def is_space_def)

lemma book_sentences: "sentences_of (js ''book'') = 1"
  by (simp add: sentences_of_def split_re_def re_plus_def js_def trim_def is_space_def
      is_terminator_def)

lemma book_average: "averageWordsPerSentence_of (js ''book'') = 1"
proof -
  have "fdiv (of_int (math_round (fmul (fdiv 1 1) 10))) 10 = 1" by code_simp
  then show ?thesis
    by (simp add: averageWordsPerSentence_of_def book_words book_sentences)
qed

lemma book_pieces:
  "length (split_re (re_class is_vowel) (js ''book'')) = 3
   \<and> length (split_re (re_plus is_vowel) (js ''book'')) = 2"
  by (simp add: split_re_def re_class_def re_plus_def js_def is_vowel_def)

lemma foldl_count_word:
  "foldl count_word obj ws
     = foldl count_key obj (filter (\<lambda>word. 2 < length word \<and> word \<notin> set stopWords) ws)"
  by (induction ws arbitrary: obj) (simp_all add: count_word_def)

lemma own_insert_plain: "array_index k = None \<Longrightarrow> own_insert k v obj = obj @ [(k, v)]"
  by (induction obj) auto

lemma proto_is_prototype_key: "js ''__proto__'' \<in> set object_prototype_keys"
  by (simp add: object_prototype_keys_def)

lemma map_of_counts_obj_None: "k \<notin> fst ` set al \<Longrightarrow> map_of (counts_obj al) k = None"
  by (induction al) (auto simp: counts_obj_def)

lemma map_of_counts_obj_Some:
  "k \<in> fst ` set al \<Longrightarrow> \<exists>n. map_of (counts_obj al) k = Some (Number n)"
  by (induction al) (auto simp: counts_obj_def)

lemma count_key_new:
  assumes "plain_key k" "k \<notin> fst ` set al"
  shows "count_key (counts_obj al) k = counts_obj (al @ [(k, 1)])"
proof -
  have "k \<noteq> js ''__proto__''" using assms(1) proto_is_prototype_key by (auto simp: plain_key_def)
  moreover have "k \<notin> fst ` set (counts_obj al)" using assms(2) by (force simp: counts_obj_def)
  moreover have "incremented (counts_obj al) k = Number 1"
    using assms by (simp add: incremented_def map_of_counts_obj_None plain_key_def)
  ultimately show ?thesis using assms(1)
    by (simp add: count_key_def own_set_def own_insert_plain plain_key_def) (simp add: counts_obj_def)
qed


lemma map_of_distinct_entry:
  "distinct (map fst al) \<Longrightarrow> (k, n) \<in> set al \<Longrightarrow> map_of (counts_obj al) k = Some (Number n)"
  by (induction al) (auto simp: counts_obj_def rev_image_eqI)

lemma count_key_old:
  assumes d: "distinct (map fst al)" and k: "k \<in> fst ` set al"
  shows "count_key (counts_obj al) k
           = counts_obj (map (\<lambda>e. if fst e = k then (fst e, Suc (snd e)) else e) al)"
proof -
  from k obtain n where n: "(k, n) \<in> set al" by auto
  have inc: "incremented (counts_obj al) k = Number (n + 1)"
    by (simp add: incremented_def map_of_distinct_entry [OF d n])
  have own: "k \<in> fst ` set (counts_obj al)" using k by (force simp: counts_obj_def)
  have u: "snd e = n" if "e \<in> set al" "fst e = k" for e
    using that n d by (metis eq_key_imp_eq_value prod.collapse)
  have "count_key (counts_obj al) k
          = map (\<lambda>(k', v'). if k' = k then (k', Number (n + 1)) else (k', v')) (counts_obj al)"
    using own by (simp only: count_key_def own_set_def inc if_True)
  also have "\<dots> = counts_obj (map (\<lambda>e. if fst e = k then (fst e, Suc (snd e)) else e) al)"
    using u by (auto simp add: counts_obj_def)
  finally show ?thesis .
qed

lemma foldl_count_key_tally:
  "distinct (map fst al) \<Longrightarrow> \<forall>w\<in>set ws. plain_key w \<Longrightarrow>
     foldl count_key (counts_obj al) ws
       = counts_obj (map (\<lambda>e. (fst e, snd e + count_list ws (fst e))) al
                     @ filter (\<lambda>e. fst e \<notin> fst ` set al) (tally ws))"
proof (induction ws arbitrary: al)
  case Nil
  show ?case by simp
next
  case (Cons w ws)
  then have pw: "plain_key w" and pws: "\<forall>w\<in>set ws. plain_key w" by simp_all
  show ?case
  proof (cases "w \<in> fst ` set al")
    case True
    let ?al = "map (\<lambda>e. if fst e = w then (fst e, Suc (snd e)) else e) al"
    have keys: "map fst ?al = map fst al" by (induction al) auto
    have d: "distinct (map fst ?al)" unfolding keys by (rule Cons.prems(1))
    have ks: "fst ` set ?al = fst ` set al" using keys by (metis list.set_map)
    have f: "filter (\<lambda>e. fst e \<notin> fst ` set al) (filter (\<lambda>e. fst e \<noteq> w) (tally ws))
               = filter (\<lambda>e. fst e \<notin> fst ` set al) (tally ws)"
      using True by (auto simp add: filter_filter intro!: filter_cong)
    have m: "map (\<lambda>e. (fst e, snd e + count_list ws (fst e))) ?al
               = map (\<lambda>e. (fst e, snd e + count_list (w # ws) (fst e))) al"
      by (induction al) auto
    have "foldl count_key (counts_obj al) (w # ws) = foldl count_key (counts_obj ?al) ws"
      by (simp add: count_key_old [OF Cons.prems(1) True])
    also have "\<dots> = counts_obj (map (\<lambda>e. (fst e, snd e + count_list ws (fst e))) ?al
                     @ filter (\<lambda>e. fst e \<notin> fst ` set ?al) (tally ws))"
      using d pws by (rule Cons.IH)
    finally show ?thesis using True by (simp only: m ks tally.simps filter.simps fst_conv f) simp
  next
    case False
    let ?al = "al @ [(w, 1)]"
    have d: "distinct (map fst ?al)" using Cons.prems(1) False by (auto simp: image_iff)
    have f: "filter (\<lambda>e. fst e \<notin> fst ` set ?al) (tally ws)
               = filter (\<lambda>e. fst e \<notin> fst ` set al) (filter (\<lambda>e. fst e \<noteq> w) (tally ws))"
      by (auto simp add: filter_filter intro!: filter_cong)
    have m: "map (\<lambda>e. (fst e, snd e + count_list ws (fst e))) al
               = map (\<lambda>e. (fst e, snd e + count_list (w # ws) (fst e))) al"
      using False by (auto simp: image_iff)
    have "foldl count_key (counts_obj al) (w # ws) = foldl count_key (counts_obj ?al) ws"
      by (simp add: count_key_new [OF pw False])
    also have "\<dots> = counts_obj (map (\<lambda>e. (fst e, snd e + count_list ws (fst e))) ?al
                     @ filter (\<lambda>e. fst e \<notin> fst ` set ?al) (tally ws))"
      using d pws by (rule Cons.IH)
    finally show ?thesis using False by (simp add: f m)
  qed
qed

lemma insert_entry_counts:
  "insert_entry (fst x, Number (snd x)) (counts_obj ys)
     = counts_obj (insort_key (\<lambda>e. - int (snd e)) x ys)"
  by (induction ys) (auto simp: counts_obj_def compare_counts_def)

lemma sort_entries_counts:
  "sort_entries (counts_obj al) = counts_obj (sort_key (\<lambda>e. - int (snd e)) al)"
proof (induction al)
  case Nil
  show ?case by (simp add: sort_entries_def counts_obj_def)
next
  case (Cons x xs)
  have "sort_entries (counts_obj (x # xs))
          = insert_entry (fst x, Number (snd x)) (sort_entries (counts_obj xs))"
    by (simp add: sort_entries_def counts_obj_def)
  then show ?case by (simp add: Cons insert_entry_counts)
qed

section \<open>The conversion history\<close>

text \<open>
  C9. Started from the empty log, the history never holds more than 10 entries, and it
  is the newest 10 of the entries created so far, newest first. One conversion on an
  input with a non-whitespace character puts exactly one new entry in front of the first
  9 of the old ones, so with 10 entries in the log the oldest (the last) is dropped.
\<close>

theorem history_newest_first_capacity_10:
  "length (conversionHistory (run initial_state es)) \<le> 10
   \<and> conversionHistory (run initial_state es) = take 10 (rev (created initial_state es))
   \<and> (\<not> blank (inputText st) \<longrightarrow>
        conversionHistory (handleConversion ty f now clock st)
          = historyEntry ty f now clock st # take 9 (conversionHistory st))
   \<and> (\<not> blank (inputText st) \<and> length (conversionHistory st) = 10 \<longrightarrow>
        conversionHistory (handleConversion ty f now clock st)
          = historyEntry ty f now clock st # butlast (conversionHistory st))"
proof -
  have "conversionHistory initial_state = take 10 []"
    by (simp add: initial_state_def)
  from history_run [OF this, of es]
  have eq: "conversionHistory (run initial_state es) = take 10 (rev (created initial_state es))"
    by simp
  have len: "length (conversionHistory (run initial_state es)) \<le> 10"
    by (simp add: eq)
  have one: "\<not> blank (inputText st) \<longrightarrow>
        conversionHistory (handleConversion ty f now clock st)
          = historyEntry ty f now clock st # take 9 (conversionHistory st)"
    by (simp add: handleConversion_def)
  have "length (conversionHistory st) = 10 \<Longrightarrow>
          take 9 (conversionHistory st) = butlast (conversionHistory st)"
    by (simp add: butlast_conv_take)
  with one have evict: "\<not> blank (inputText st) \<and> length (conversionHistory st) = 10 \<longrightarrow>
        conversionHistory (handleConversion ty f now clock st)
          = historyEntry ty f now clock st # butlast (conversionHistory st)"
    by simp
  from len eq one evict show ?thesis by blast
qed

theorem history_newest_first_capacity_10_witness:
  "\<not> blank (inputText \<lparr>inputText = js ''ab'', outputText = [],
        conversionHistory = replicate 10 (historyEntry LowerCase rev 1 [] initial_state)\<rparr>)
   \<and> length (conversionHistory \<lparr>inputText = js ''ab'', outputText = [],
        conversionHistory = replicate 10 (historyEntry LowerCase rev 1 [] initial_state)\<rparr>) = 10
   \<and> conversionHistory (handleConversion ReverseText rev 2 []
        \<lparr>inputText = js ''ab'', outputText = [],
         conversionHistory = replicate 10 (historyEntry LowerCase rev 1 [] initial_state)\<rparr>)
       = \<lparr>entry_id = 2, entry_input = js ''ab'', entry_output = js ''ba'',
          entry_type = ReverseText, entry_timestamp = []\<rparr>
         # replicate 9 (historyEntry LowerCase rev 1 [] initial_state)
   \<and> conversionHistory (run initial_state
         [SetInputText (js ''ab''), Conversion ReverseText rev 2 [], SetInputText (js '' ''),
          Conversion ReverseText rev 3 [], SetInputText (js ''c''), Conversion UpperCase rev 4 []])
       = [\<lparr>entry_id = 4, entry_input = js ''c'', entry_output = js ''c'',
           entry_type = UpperCase, entry_timestamp = []\<rparr>,
          \<lparr>entry_id = 2, entry_input = js ''ab'', entry_output = js ''ba'',
           entry_type = ReverseText, entry_timestamp = []\<rparr>]"
  using history_newest_first_capacity_10
    [of "[SetInputText (js ''ab''), Conversion ReverseText rev 2 [], SetInputText (js '' ''),
          Conversion ReverseText rev 3 [], SetInputText (js ''c''), Conversion UpperCase rev 4 []]"
        "\<lparr>inputText = js ''ab'', outputText = [],
          conversionHistory = replicate 10 (historyEntry LowerCase rev 1 [] initial_state)\<rparr>"
        ReverseText rev 2 "[]"]
  by (simp add: blank_simps js_def is_space_def historyEntry_def initial_state_def
      handleConversion_def butlast_conv_take)

section \<open>Conversions on an empty input\<close>

text \<open>
  C10. Invoked while the input is empty or holds only whitespace, \<open>handleConversion\<close>
  returns at once: whatever the conversion, the state (output text and history log
  included) is the one before the call, and no history entry is created.
\<close>

theorem handleConversion_blank_input_unchanged:
  "blank (inputText st) \<Longrightarrow>
     handleConversion ty f now clock st = st \<and> created st [Conversion ty f now clock] = []"
  by (simp add: handleConversion_def)

theorem handleConversion_blank_input_unchanged_witness:
  "blank (inputText \<lparr>inputText = js '' '', outputText = js ''OLD'', conversionHistory = []\<rparr>)
   \<and> handleConversion UpperCase rev 5 []
        \<lparr>inputText = js '' '', outputText = js ''OLD'', conversionHistory = []\<rparr>
       = \<lparr>inputText = js '' '', outputText = js ''OLD'', conversionHistory = []\<rparr>"
  using handleConversion_blank_input_unchanged
    [of "\<lparr>inputText = js '' '', outputText = js ''OLD'', conversionHistory = []\<rparr>"
        UpperCase rev 5 "[]"]
  by (simp add: blank_simps js_def is_space_def)

section \<open>Idempotent conversions\<close>



section \<open>Reversal\<close>

text \<open>
  C8, as the code has it. \<open>reverseText\<close> reverses the sequence of UTF-16 code units of its
  input; \<open>abc\<close> becomes \<open>cba\<close>; applied twice it gives back the input, whatever the
  string; and on a string without surrogate code units (every ASCII string is one) the
  result is the reversed sequence of code points.
\<close>

theorem reverseText_reverses_code_units:
  "reverseText s = rev s
   \<and> reverseText (js ''abc'') = js ''cba''
   \<and> reverseText (reverseText s) = s
   \<and> (surrogate_free s \<longrightarrow> reverseText s = utf16 (rev (codepoints s)))
   \<and> (ascii s \<longrightarrow> surrogate_free s)"
proof -
  have "surrogate_free s \<longrightarrow> reverseText s = utf16 (rev (codepoints s))"
  proof
    assume "surrogate_free s"
    then have "utf16 (rev (codepoints s)) = utf16 (map unat (rev s))"
      by (simp add: codepoints_surrogate_free rev_map)
    then show "reverseText s = utf16 (rev (codepoints s))"
      by (simp only: utf16_map_unat reverseText_rev)
  qed
  moreover have "reverseText (js ''abc'') = js ''cba''"
    by (simp add: reverseText_rev js_def)
  moreover have "reverseText (reverseText s) = s"
    by (simp add: reverseText_rev)
  moreover note reverseText_rev [of s] ascii_surrogate_free [of s]
  ultimately show ?thesis by blast
qed

theorem reverseText_reverses_code_units_witness:
  "ascii (js ''abc'') \<and> surrogate_free (js ''abc'')
   \<and> reverseText (js ''abc'') = utf16 (rev (codepoints (js ''abc'')))
   \<and> reverseText (reverseText (js ''abc'')) = js ''abc''"
  using reverseText_reverses_code_units [of "js ''abc''"]
  by (simp add: js_def ascii_def surrogate_free_def is_high_surrogate_def
      is_low_surrogate_def reverseText_def)

text \<open>
  C8 as stated fails on a surrogate pair. The string of the one code point U+1F600 is
  the code units D83D DE00; its code-point sequence reversed is the same string, and
  \<open>reverseText\<close> returns DE00 D83D.
\<close>

theorem reverseText_code_points_counterexample:
  "reverseText [0xD83D, 0xDE00] = [0xDE00, 0xD83D]
   \<and> utf16 (rev (codepoints [0xD83D, 0xDE00])) = [0xD83D, 0xDE00]
   \<and> reverseText [0xD83D, 0xDE00] \<noteq> utf16 (rev (codepoints [0xD83D, 0xDE00]))"
  by (simp add: reverseText_def is_high_surrogate_def is_low_surrogate_def)

section \<open>Title case\<close>




section \<open>Sentence case\<close>




section \<open>Words and sentences\<close>

text \<open>
  C1, as the code has it. \<open>analyze\<close> counts as words the maximal runs of non-whitespace
  characters of the trimmed input, and as sentences the segments between runs of
  \<open>.\<close>, \<open>!\<close>, \<open>?\<close> that hold at least one non-whitespace character (a segment of
  whitespace only is not counted). For \<open>Hello world. This is a test.\<close> it reports 6
  words, 2 sentences, 3.0 words per sentence and the complexity \<open>Simple\<close>.
\<close>

theorem analyze_words_and_sentences:
  "words (analyze s) = length (runs (\<lambda>c. \<not> is_space c) (trim s))
   \<and> sentences (analyze s)
       = length (filter (\<lambda>seg. \<not> blank seg) (runs (\<lambda>c. \<not> is_terminator c) s))
   \<and> words (analyze (js ''Hello world. This is a test.'')) = 6
   \<and> sentences (analyze (js ''Hello world. This is a test.'')) = 2
   \<and> averageWordsPerSentence (analyze (js ''Hello world. This is a test.'')) = 3
   \<and> textComplexity (analyze (js ''Hello world. This is a test.'')) = Simple"
proof -
  have w: "words (analyze s) = length (runs (\<lambda>c. \<not> is_space c) (trim s))"
  proof (cases "blank s")
    case True
    then show ?thesis by (simp add: analyze_blank) (simp add: blank_def runs_def)
  next
    case False
    then show ?thesis by (simp add: analyze_fields words_of_runs)
  qed
  have s: "sentences (analyze s)
       = length (filter (\<lambda>seg. \<not> blank seg) (runs (\<lambda>c. \<not> is_terminator c) s))"
  proof (cases "blank s")
    case True
    then show ?thesis by (simp add: analyze_blank blank_no_sentences)
  next
    case False
    then show ?thesis by (simp add: analyze_fields sentences_of_runs)
  qed
  note e = analyze_fields [OF example_not_blank]
  from w s show ?thesis
    by (simp only: e example_words example_sentences example_average example_complexity simp_thms)
qed

text \<open>
  C1 as stated counts every segment that is not the empty string. In \<open>Hi. \<close> (a space
  behind the full stop) the split gives \<open>Hi\<close> and the one-space segment: two non-empty
  segments, and the code reports one sentence.
\<close>

theorem sentences_nonempty_segments_counterexample:
  "sentences (analyze (js ''Hi. '')) = 1 \<and> sentences_claimed (js ''Hi. '') = 2"
  by (simp add: analyze_def sentences_of_def sentences_claimed_def split_re_def re_plus_def
      is_terminator_def js_def trim_def is_space_def)

section \<open>The readability score\<close>

text \<open>
  C2, as the code has it. For an input with a non-whitespace character the word count is
  positive, and \<open>readabilityScore\<close> is
  \<open>206.835 - 1.015 * averageWordsPerSentence - 84.6 * avgSyllables\<close>, clamped to 0..100
  and rounded to the nearest integer, in the arithmetic of JavaScript numbers, where
  \<open>avgSyllables\<close> is the number of pieces the text falls into when split at every single
  vowel (the number of vowels plus one) divided by the word count. The score lies
  between 0 and 100.
\<close>

theorem readabilityScore_formula:
  "\<not> blank s \<Longrightarrow>
     0 < words (analyze s)
     \<and> readabilityScore (analyze s)
         = math_round (max 0 (min 100
             (fsub (fsub (fl (206835 / 1000))
                         (fmul (fl (1015 / 1000)) (averageWordsPerSentence (analyze s))))
                   (fmul (fl (846 / 10))
                         (fdiv (of_nat (length (filter is_vowel s) + 1))
                               (of_nat (words (analyze s))))))))
     \<and> 0 \<le> readabilityScore (analyze s) \<and> readabilityScore (analyze s) \<le> 100"
proof -
  assume nb: "\<not> blank s"
  have pos: "0 < words_of s" using nb by (rule words_of_pos)
  have syl: "avgSyllables_of s = fdiv (of_nat (length (filter is_vowel s) + 1)) (of_nat (words_of s))"
    using pos by (simp only: avgSyllables_of_def split_re_class_length if_True)
  have range: "0 \<le> readabilityScore_of s \<and> readabilityScore_of s \<le> 100"
    by (simp add: readabilityScore_of_def)
  then have "0 \<le> math_round (readabilityScore_of s) \<and> math_round (readabilityScore_of s) \<le> 100"
    using math_round_range by blast
  moreover have "readabilityScore_of s = max 0 (min 100
             (fsub (fsub (fl (206835 / 1000))
                         (fmul (fl (1015 / 1000)) (averageWordsPerSentence_of s)))
                   (fmul (fl (846 / 10))
                         (fdiv (of_nat (length (filter is_vowel s) + 1))
                               (of_nat (words_of s))))))"
    by (simp only: readabilityScore_of_def syl)
  ultimately show ?thesis
    using pos by (simp only: analyze_fields [OF nb] simp_thms)
qed

theorem readabilityScore_formula_witness:
  "\<not> blank (js ''book'')
   \<and> 0 < words (analyze (js ''book''))
   \<and> 0 \<le> readabilityScore (analyze (js ''book''))
   \<and> readabilityScore (analyze (js ''book'')) \<le> 100"
  using readabilityScore_formula [of "js ''book''"]
  by (simp add: js_def blank_simps is_space_def)

text \<open>
  C2 as stated splits at runs of vowels. \<open>book\<close> has one run of two vowels: two pieces
  and a score of 37 by the claim; the code splits at each \<open>o\<close>, counts three pieces and
  reports 0.
\<close>

theorem readabilityScore_vowel_runs_counterexample:
  "readabilityScore (analyze (js ''book'')) = 0 \<and> readabilityScore_claimed (js ''book'') = 37"
proof -
  have a: "math_round (max 0 (min 100
       (fsub (fsub (fl (206835 / 1000)) (fmul (fl (1015 / 1000)) 1))
             (fmul (fl (846 / 10)) (fdiv 3 1))))) = 0" by code_simp
  have b: "math_round (max 0 (min 100
       (fsub (fsub (fl (206835 / 1000)) (fmul (fl (1015 / 1000)) 1))
             (fmul (fl (846 / 10)) (fdiv 2 1))))) = 37" by code_simp
  have nb: "\<not> blank (js ''book'')" by (simp add: js_def blank_simps is_space_def)
  have "readabilityScore (analyze (js ''book'')) = 0"
    using a by (simp add: analyze_fields [OF nb] readabilityScore_of_def avgSyllables_of_def
        book_words book_average book_pieces)
  moreover have "readabilityScore_claimed (js ''book'') = 37"
    using b by (simp add: readabilityScore_claimed_def avgSyllables_claimed_def
        book_words book_average book_pieces)
  ultimately show ?thesis by simp
qed

section \<open>The character count\<close>

text \<open>
  C3, as the code has it. \<open>characters\<close> is 0 for an empty or whitespace-only input and
  the number of UTF-16 code units of the input otherwise: the number of its code points
  plus the number of its surrogate pairs.
\<close>

theorem characters_code_units:
  "characters (analyze s) = (if blank s then 0 else length s)
   \<and> length s = length (codepoints s) + surrogate_pairs s"
  by (simp add: analyze_blank analyze_fields length_codepoints [symmetric])

text \<open>
  C3 as stated fails on a whitespace-only input (one space: one code point, 0 reported)
  and on a code point outside the Basic Multilingual Plane (U+1F600: one code point, 2
  reported).
\<close>

theorem characters_code_points_counterexample:
  "characters (analyze [0x20]) = 0 \<and> length (codepoints [0x20]) = 1
   \<and> characters (analyze [0xD83D, 0xDE00]) = 2 \<and> length (codepoints [0xD83D, 0xDE00]) = 1"
  by (simp add: analyze_def trim_def is_space_def is_high_surrogate_def is_low_surrogate_def)

section \<open>The most common words\<close>

text \<open>
  On a text whose counted tokens are all plain keys, the code ranks as the
  specification says: at most 5 pairs of a token and its number of occurrences, by
  descending count, ties in the order of first occurrence.
\<close>

lemma mostCommonWords_plain:
  assumes "\<forall>w\<in>set (counted_tokens s). plain_key w"
  shows "mostCommonWords_of s = counts_obj (mostCommonWords_claimed s)"
proof -
  have "[] = counts_obj []" by (simp add: counts_obj_def)
  then have "wordFreq_of s = foldl count_key (counts_obj []) (counted_tokens s)"
    by (simp add: wordFreq_of_def foldl_count_word counted_tokens_def)
  also have "\<dots> = counts_obj (tally (counted_tokens s))"
    using foldl_count_key_tally [of "[]" "counted_tokens s"] assms by simp
  finally show ?thesis
    by (simp add: mostCommonWords_of_def mostCommonWords_claimed_def sort_entries_counts)
       (simp add: counts_obj_def take_map)
qed

lemma counted_tokens_example:
  "counted_tokens (js ''pear fig pear the kiwi fig plum'')
     = [js ''pear'', js ''fig'', js ''pear'', js ''kiwi'', js ''fig'', js ''plum'']"
  apply (simp add: counted_tokens_def word_tokens_def js_def
      toLowerCase_def re_class_def is_word_def is_space_def split_re_def re_plus_def)
  apply (simp add: stopWords_def js_def)
  done

lemma plain_example:
  "\<forall>w\<in>set (counted_tokens (js ''pear fig pear the kiwi fig plum'')). plain_key w"
  by (simp add: counted_tokens_example)
     (simp add: plain_key_def array_index_def is_digit_def object_prototype_keys_def js_def)

lemma claimed_example:
  "mostCommonWords_claimed (js ''pear fig pear the kiwi fig plum'')
     = [(js ''pear'', 2), (js ''fig'', 2), (js ''kiwi'', 1), (js ''plum'', 1)]"
  by (simp add: mostCommonWords_claimed_def counted_tokens_example) (simp add: js_def)

lemma mostCommonWords_plain_example:
  "mostCommonWords_of (js ''pear fig pear the kiwi fig plum'')
     = [(js ''pear'', Number 2), (js ''fig'', Number 2), (js ''kiwi'', Number 1),
        (js ''plum'', Number 1)]"
  using mostCommonWords_plain [OF plain_example]
  by (simp add: claimed_example counts_obj_def)

lemma counted_tokens_failing:
  "counted_tokens (js ''pear 100 constructor'') = [js ''pear'', js ''100'', js ''constructor'']"
  apply (simp add: counted_tokens_def word_tokens_def js_def
      toLowerCase_def re_class_def is_word_def is_space_def split_re_def re_plus_def)
  apply (simp add: stopWords_def js_def)
  done

lemma claimed_failing:
  "mostCommonWords_claimed (js ''pear 100 constructor'')
     = [(js ''pear'', 1), (js ''100'', 1), (js ''constructor'', 1)]"
  by (simp add: mostCommonWords_claimed_def counted_tokens_failing) (simp add: js_def)

text \<open>
  C4 at the input \<open>pear 100 constructor\<close>. Each token occurs once, \<open>pear\<close> first, so
  the specification ranks \<open>pear\<close>, \<open>100\<close>, \<open>constructor\<close>, each with the count 1. The
  report of the code lists \<open>100\<close> in front of \<open>pear\<close>, since an object lists its
  array-index keys first, and its count of \<open>constructor\<close> is no number but a text,
  since \<open>wordFreq['constructor']\<close> finds the inherited function.
\<close>

theorem mostCommonWords_object_keys:
  "mostCommonWords (analyze (js ''pear 100 constructor''))
     = [(js ''100'', Number 1), (js ''pear'', Number 1), (js ''constructor'', Text)]
   \<and> mostCommonWords_claimed (js ''pear 100 constructor'')
     = [(js ''pear'', 1), (js ''100'', 1), (js ''constructor'', 1)]"
proof -
  have nb: "\<not> blank (js ''pear 100 constructor'')"
    by (simp add: js_def blank_simps is_space_def)
  have "wordFreq_of (js ''pear 100 constructor'')
          = foldl count_key [] [js ''pear'', js ''100'', js ''constructor'']"
    by (simp only: wordFreq_of_def foldl_count_word counted_tokens_def [symmetric]
        counted_tokens_failing)
  also have "\<dots> = [(js ''100'', Number 1), (js ''pear'', Number 1), (js ''constructor'', Text)]"
    by (simp add: count_key_def incremented_def own_set_def object_prototype_keys_def js_def
        array_index_def is_digit_def digits_value_def)
  finally have "mostCommonWords_of (js ''pear 100 constructor'')
          = [(js ''100'', Number 1), (js ''pear'', Number 1), (js ''constructor'', Text)]"
    by (simp add: mostCommonWords_of_def sort_entries_def compare_counts_def)
  then show ?thesis
    by (simp only: analyze_fields [OF nb] claimed_failing simp_thms)
qed

end
